theory Spec2Isabelle
  imports Main "HOL-Library.Monad_Syntax"
begin

section \<open>Indexing as Python and numpy do it\<close>

text \<open>
  The engine (\<^verbatim>\<open>ChessEngine.py\<close>) keeps the board in a numpy array of shape (8, 8)
  and dtype \<^verbatim>\<open><U2\<close> and reads it with \<^verbatim>\<open>self.board[r][c]\<close>. An index \<open>i\<close> of a
  sequence of length \<open>n\<close> is accepted for \<open>-n \<le> i < n\<close>, a negative one counting from the
  end; any other index raises IndexError. A raised exception is the value \<open>None\<close>.
\<close>

definition norm_index :: "nat \<Rightarrow> int \<Rightarrow> nat option" where
  "norm_index n i =
     (if 0 \<le> i \<and> i < int n then Some (nat i)
      else if - int n \<le> i \<and> i < 0 then Some (nat (i + int n))
      else None)"

definition py_get :: "'a list \<Rightarrow> int \<Rightarrow> 'a option" where
  "py_get xs i = map_option (\<lambda>j. xs ! j) (norm_index (length xs) i)"

definition py_set :: "'a list \<Rightarrow> int \<Rightarrow> 'a \<Rightarrow> 'a list option" where
  "py_set xs i v = map_option (\<lambda>j. xs[j := v]) (norm_index (length xs) i)"

text \<open>\<^verbatim>\<open>s[k]\<close> on a string: the character at position \<open>k\<close>, IndexError beyond the end.\<close>

definition str_at :: "string \<Rightarrow> nat \<Rightarrow> char option" where
  "str_at s k = (if k < length s then Some (s ! k) else None)"

section \<open>The board\<close>

type_synonym board_t = "string list list"

text \<open>\<^verbatim>\<open>board[r][c]\<close>\<close>

definition board_get :: "board_t \<Rightarrow> int \<Rightarrow> int \<Rightarrow> string option" where
  "board_get b r c = do { row \<leftarrow> py_get b r; py_get row c }"

text \<open>
  \<^verbatim>\<open>board[r][c] = v\<close>: \<^verbatim>\<open>board[r]\<close> is a view of row \<open>r\<close>, so the store goes through to
  the array; the dtype \<^verbatim>\<open><U2\<close> keeps at most two characters of \<open>v\<close>.
\<close>

definition board_set :: "board_t \<Rightarrow> int \<Rightarrow> int \<Rightarrow> string \<Rightarrow> board_t option" where
  "board_set b r c v = do {
     row \<leftarrow> py_get b r;
     row' \<leftarrow> py_set row c (take 2 v);
     py_set b r row'
   }"

text \<open>
  The data model of the board: 8 rows of 8 squares, a square being \<^verbatim>\<open>'--'\<close> (empty) or
  a colour letter (\<^verbatim>\<open>w\<close>, \<^verbatim>\<open>b\<close>) followed by a kind letter
  (\<^verbatim>\<open>p R N B Q K\<close>).
\<close>

definition wf_square :: "string \<Rightarrow> bool" where
  "wf_square sq =
     (sq = ''--'' \<or>
      (length sq = 2 \<and> sq ! 0 \<in> set ''wb'' \<and> sq ! 1 \<in> set ''pRNBQK''))"

definition is_board :: "board_t \<Rightarrow> bool" where
  "is_board b = (length b = 8 \<and> list_all (\<lambda>row. length row = 8 \<and> list_all wf_square row) b)"

text \<open>The weaker shape that numpy itself maintains: 8 by 8, at most two characters each.\<close>

definition board_shape :: "board_t \<Rightarrow> bool" where
  "board_shape b =
     (length b = 8 \<and> list_all (\<lambda>row. length row = 8 \<and> list_all (\<lambda>sq. length sq \<le> 2) row) b)"

section \<open>Move\<close>

record Move =
  start_row :: int
  start_col :: int
  end_row :: int
  end_col :: int
  piece_moved :: string
  piece_captured :: string
  move_ID :: int

text \<open>\<^verbatim>\<open>Move.__init__(self, start_sq, end_sq, board)\<close>, lines 495-502.\<close>

definition Move_init :: "int \<times> int \<Rightarrow> int \<times> int \<Rightarrow> board_t \<Rightarrow> Move option" where
  "Move_init start_sq end_sq b = do {
     pm \<leftarrow> board_get b (fst start_sq) (snd start_sq);
     pc \<leftarrow> board_get b (fst end_sq) (snd end_sq);
     Some \<lparr> start_row = fst start_sq, start_col = snd start_sq,
            end_row = fst end_sq, end_col = snd end_sq,
            piece_moved = pm, piece_captured = pc,
            move_ID = fst start_sq * 1000 + snd start_sq * 100 + fst end_sq * 10 + snd end_sq \<rparr>
   }"

text \<open>\<^verbatim>\<open>Move.__eq__\<close>, lines 507-510, on two Move instances.\<close>

definition Move_eq :: "Move \<Rightarrow> Move \<Rightarrow> bool" where
  "Move_eq m other = (move_ID m = move_ID other)"

section \<open>GameState\<close>

record GameState =
  board :: board_t
  whiteToMove :: bool
  moveLog :: "Move list"

text \<open>\<^verbatim>\<open>GameState.__init__\<close>, lines 9-23.\<close>

definition init_board :: board_t where
  "init_board =
     [[''bR'', ''bN'', ''bB'', ''bQ'', ''bK'', ''bB'', ''bN'', ''bR''],
      replicate 8 ''bp'',
      replicate 8 ''--'', replicate 8 ''--'', replicate 8 ''--'', replicate 8 ''--'',
      replicate 8 ''wp'',
      [''wR'', ''wN'', ''wB'', ''wQ'', ''wK'', ''wB'', ''wN'', ''wR'']]"

definition GameState_init :: GameState where
  "GameState_init = \<lparr> board = init_board, whiteToMove = True, moveLog = [] \<rparr>"

text \<open>\<^verbatim>\<open>make_move\<close>, lines 25-29.\<close>

definition make_move :: "GameState \<Rightarrow> Move \<Rightarrow> GameState option" where
  "make_move s move = do {
     b1 \<leftarrow> board_set (board s) (start_row move) (start_col move) ''--'';
     b2 \<leftarrow> board_set b1 (end_row move) (end_col move) (piece_moved move);
     Some (s \<lparr> board := b2, moveLog := moveLog s @ [move], whiteToMove := \<not> whiteToMove s \<rparr>)
   }"

text \<open>\<^verbatim>\<open>undo_move\<close>, lines 34-41: \<^verbatim>\<open>pop()\<close> takes the last entry of the log.\<close>

definition undo_move :: "GameState \<Rightarrow> GameState option" where
  "undo_move s =
     (if length (moveLog s) \<noteq> 0 then do {
        let move = last (moveLog s);
        let log' = butlast (moveLog s);
        b1 \<leftarrow> board_set (board s) (start_row move) (start_col move) (piece_moved move);
        b2 \<leftarrow> board_set b1 (end_row move) (end_col move) (piece_captured move);
        Some (s \<lparr> board := b2, moveLog := log', whiteToMove := \<not> whiteToMove s \<rparr>)
      } else Some s)"

text \<open>A sequence of calls on a GameState; the first exception ends it.\<close>

datatype call = Make_move Move | Undo_move

fun run :: "GameState \<Rightarrow> call list \<Rightarrow> GameState option" where
  "run s [] = Some s"
| "run s (Make_move m # rest) = do { s' \<leftarrow> make_move s m; run s' rest }"
| "run s (Undo_move # rest) = do { s' \<leftarrow> undo_move s; run s' rest }"

section \<open>Move generation\<close>

text \<open>\<^verbatim>\<open>moves.append(Move(start, end, self.board))\<close>\<close>

definition append_move ::
  "GameState \<Rightarrow> int \<times> int \<Rightarrow> int \<times> int \<Rightarrow> Move list \<Rightarrow> Move list option" where
  "append_move s start_sq end_sq moves = do {
     m \<leftarrow> Move_init start_sq end_sq (board s);
     Some (moves @ [m])
   }"

subsection \<open>Pawn\<close>

text \<open>
  \<^verbatim>\<open>get_pawn_moves(self, r, c, moves)\<close>, lines 69-110. The probe of the double push is
  only made when \<^verbatim>\<open>r == 6\<close> (\<^verbatim>\<open>r == 1\<close> for Black) holds, as \<^verbatim>\<open>and\<close> evaluates it.
\<close>

definition get_pawn_moves :: "GameState \<Rightarrow> int \<Rightarrow> int \<Rightarrow> Move list \<Rightarrow> Move list option" where
  "get_pawn_moves s r c moves =
     (if whiteToMove s then do {
        fwd \<leftarrow> board_get (board s) (r - 1) c;
        moves1 \<leftarrow>
          (if fwd = ''--'' then do {
             ms \<leftarrow> append_move s (r, c) (r - 1, c) moves;
             if r = 6 then do {
               fwd2 \<leftarrow> board_get (board s) (r - 2) c;
               if fwd2 = ''--'' then append_move s (r, c) (r - 2, c) ms else Some ms
             } else Some ms
           } else Some moves);
        moves2 \<leftarrow>
          (if c - 1 \<ge> 0 then do {
             sq \<leftarrow> board_get (board s) (r - 1) (c - 1);
             ch \<leftarrow> str_at sq 0;
             if ch = CHR ''b'' then append_move s (r, c) (r - 1, c - 1) moves1 else Some moves1
           } else Some moves1);
        (if c + 1 \<le> 7 then do {
           sq \<leftarrow> board_get (board s) (r - 1) (c + 1);
           ch \<leftarrow> str_at sq 0;
           if ch = CHR ''b'' then append_move s (r, c) (r - 1, c + 1) moves2 else Some moves2
         } else Some moves2)
      } else do {
        fwd \<leftarrow> board_get (board s) (r + 1) c;
        moves1 \<leftarrow>
          (if fwd = ''--'' then do {
             ms \<leftarrow> append_move s (r, c) (r + 1, c) moves;
             if r = 1 then do {
               fwd2 \<leftarrow> board_get (board s) (r + 2) c;
               if fwd2 = ''--'' then append_move s (r, c) (r + 2, c) ms else Some ms
             } else Some ms
           } else Some moves);
        moves2 \<leftarrow>
          (if c - 1 \<ge> 0 then do {
             sq \<leftarrow> board_get (board s) (r + 1) (c - 1);
             ch \<leftarrow> str_at sq 0;
             if ch = CHR ''w'' then append_move s (r, c) (r + 1, c - 1) moves1 else Some moves1
           } else Some moves1);
        (if c + 1 \<le> 7 then do {
           sq \<leftarrow> board_get (board s) (r + 1) (c + 1);
           ch \<leftarrow> str_at sq 0;
           if ch = CHR ''w'' then append_move s (r, c) (r + 1, c + 1) moves2 else Some moves2
         } else Some moves2)
      })"

subsection \<open>Rook\<close>

text \<open>
  \<^verbatim>\<open>get_rook_moves\<close>, lines 115-253, is eight \<^verbatim>\<open>for\<close> loops of one shape: four for
  White (capturing \<^verbatim>\<open>b\<close>, breaking on \<^verbatim>\<open>w\<close>) and four for Black (the letters swapped).
  \<open>rook_loop\<close> is that loop body over the remaining indices; \<open>sq_of i\<close> is the square the
  index \<open>i\<close> stands for, \<open>(i, c)\<close> in a column loop and \<open>(r, i)\<close> in a row loop. The loop
  leaves through \<^verbatim>\<open>break\<close> only on a piece of the mover's own colour.
\<close>

fun rook_loop ::
  "GameState \<Rightarrow> char \<Rightarrow> char \<Rightarrow> int \<times> int \<Rightarrow> (int \<Rightarrow> int \<times> int) \<Rightarrow> int list \<Rightarrow> Move list
     \<Rightarrow> Move list option" where
  "rook_loop s enemy ally start sq_of [] moves = Some moves"
| "rook_loop s enemy ally start sq_of (i # rest) moves = do {
     sq \<leftarrow> board_get (board s) (fst (sq_of i)) (snd (sq_of i));
     moves1 \<leftarrow> (if sq = ''--'' then append_move s start (sq_of i) moves else Some moves);
     if sq \<noteq> ''--'' then do {
       ch \<leftarrow> str_at sq 0;
       moves2 \<leftarrow> (if ch = enemy then append_move s start (sq_of i) moves1 else Some moves1);
       if ch = ally then Some moves2
       else rook_loop s enemy ally start sq_of rest moves2
     } else rook_loop s enemy ally start sq_of rest moves1
   }"

text \<open>\<^verbatim>\<open>range(r-1, -1, -1)\<close> is \<open>rev [0..r-1]\<close>; \<^verbatim>\<open>range(r+1, 8)\<close> is \<open>[r+1..7]\<close>.\<close>

definition rook_rays ::
  "GameState \<Rightarrow> char \<Rightarrow> char \<Rightarrow> int \<Rightarrow> int \<Rightarrow> Move list \<Rightarrow> Move list option" where
  "rook_rays s enemy ally r c moves = do {
     moves1 \<leftarrow> (if r - 1 \<ge> 0
                then rook_loop s enemy ally (r, c) (\<lambda>i. (i, c)) (rev [0..r - 1]) moves
                else Some moves);
     moves2 \<leftarrow> (if c - 1 \<ge> 0
                then rook_loop s enemy ally (r, c) (\<lambda>i. (r, i)) (rev [0..c - 1]) moves1
                else Some moves1);
     moves3 \<leftarrow> (if c + 1 \<le> 7
                then rook_loop s enemy ally (r, c) (\<lambda>i. (r, i)) [c + 1..7] moves2
                else Some moves2);
     (if r + 1 \<le> 7
      then rook_loop s enemy ally (r, c) (\<lambda>i. (i, c)) [r + 1..7] moves3
      else Some moves3)
   }"

definition get_rook_moves :: "GameState \<Rightarrow> int \<Rightarrow> int \<Rightarrow> Move list \<Rightarrow> Move list option" where
  "get_rook_moves s r c moves =
     (if whiteToMove s then rook_rays s (CHR ''b'') (CHR ''w'') r c moves
      else rook_rays s (CHR ''w'') (CHR ''b'') r c moves)"

subsection \<open>Knight\<close>

text \<open>
  \<^verbatim>\<open>get_knight_moves\<close>, lines 258-437, tests eight squares for each colour, each with the
  same two statements: append a move to the tested square when it is \<^verbatim>\<open>'--'\<close>, then
  append a move when its first letter is the enemy's. \<open>knight_probe\<close> is that pair;
  \<open>tested\<close> is the square that is read and \<open>capture_to\<close> the end square of the move
  appended by the second statement. The two are the same square in fifteen of the sixteen
  places; at line 383 (Black, \<^verbatim>\<open>[r-1][c-2]\<close> tested) the source writes
  \<^verbatim>\<open>Move((r, c), (r+2, c-1), self.board)\<close>.
\<close>

definition knight_probe ::
  "GameState \<Rightarrow> char \<Rightarrow> int \<times> int \<Rightarrow> int \<times> int \<Rightarrow> int \<times> int \<Rightarrow> Move list \<Rightarrow> Move list option" where
  "knight_probe s enemy start tested capture_to moves = do {
     sq \<leftarrow> board_get (board s) (fst tested) (snd tested);
     moves1 \<leftarrow> (if sq = ''--'' then append_move s start tested moves else Some moves);
     ch \<leftarrow> str_at sq 0;
     if ch = enemy then append_move s start capture_to moves1 else Some moves1
   }"

definition get_knight_moves :: "GameState \<Rightarrow> int \<Rightarrow> int \<Rightarrow> Move list \<Rightarrow> Move list option" where
  "get_knight_moves s r c moves =
     (if whiteToMove s then do {
        a \<leftarrow> (if c - 1 \<ge> 0 then do {
               x \<leftarrow> (if r - 2 \<ge> 0
                     then knight_probe s (CHR ''b'') (r, c) (r - 2, c - 1) (r - 2, c - 1) moves
                     else Some moves);
               (if r + 2 \<le> 7
                then knight_probe s (CHR ''b'') (r, c) (r + 2, c - 1) (r + 2, c - 1) x
                else Some x)
             } else Some moves);
        b \<leftarrow> (if c - 2 \<ge> 0 then do {
               x \<leftarrow> (if r - 1 \<ge> 0
                     then knight_probe s (CHR ''b'') (r, c) (r - 1, c - 2) (r - 1, c - 2) a
                     else Some a);
               (if r + 1 \<le> 7
                then knight_probe s (CHR ''b'') (r, c) (r + 1, c - 2) (r + 1, c - 2) x
                else Some x)
             } else Some a);
        d \<leftarrow> (if c + 1 \<le> 7 then do {
               x \<leftarrow> (if r - 2 \<ge> 0
                     then knight_probe s (CHR ''b'') (r, c) (r - 2, c + 1) (r - 2, c + 1) b
                     else Some b);
               (if r + 2 \<le> 7
                then knight_probe s (CHR ''b'') (r, c) (r + 2, c + 1) (r + 2, c + 1) x
                else Some x)
             } else Some b);
        (if c + 2 \<le> 7 then do {
           x \<leftarrow> (if r - 1 \<ge> 0
                 then knight_probe s (CHR ''b'') (r, c) (r - 1, c + 2) (r - 1, c + 2) d
                 else Some d);
           (if r + 1 \<le> 7
            then knight_probe s (CHR ''b'') (r, c) (r + 1, c + 2) (r + 1, c + 2) x
            else Some x)
         } else Some d)
      } else do {
        a \<leftarrow> (if c - 1 \<ge> 0 then do {
               x \<leftarrow> (if r - 2 \<ge> 0
                     then knight_probe s (CHR ''w'') (r, c) (r - 2, c - 1) (r - 2, c - 1) moves
                     else Some moves);
               (if r + 2 \<le> 7
                then knight_probe s (CHR ''w'') (r, c) (r + 2, c - 1) (r + 2, c - 1) x
                else Some x)
             } else Some moves);
        b \<leftarrow> (if c - 2 \<ge> 0 then do {
               x \<leftarrow> (if r - 1 \<ge> 0
                     then knight_probe s (CHR ''w'') (r, c) (r - 1, c - 2) (r + 2, c - 1) a
                     else Some a);
               (if r + 1 \<le> 7
                then knight_probe s (CHR ''w'') (r, c) (r + 1, c - 2) (r + 1, c - 2) x
                else Some x)
             } else Some a);
        d \<leftarrow> (if c + 1 \<le> 7 then do {
               x \<leftarrow> (if r - 2 \<ge> 0
                     then knight_probe s (CHR ''w'') (r, c) (r - 2, c + 1) (r - 2, c + 1) b
                     else Some b);
               (if r + 2 \<le> 7
                then knight_probe s (CHR ''w'') (r, c) (r + 2, c + 1) (r + 2, c + 1) x
                else Some x)
             } else Some b);
        (if c + 2 \<le> 7 then do {
           x \<leftarrow> (if r - 1 \<ge> 0
                 then knight_probe s (CHR ''w'') (r, c) (r - 1, c + 2) (r - 1, c + 2) d
                 else Some d);
           (if r + 1 \<le> 7
            then knight_probe s (CHR ''w'') (r, c) (r + 1, c + 2) (r + 1, c + 2) x
            else Some x)
         } else Some d)
      })"

subsection \<open>Bishop, queen, king\<close>

text \<open>
  \<^verbatim>\<open>get_bishop_moves\<close>, lines 442-463: the inner loop over \<^verbatim>\<open>range(1, 8)\<close> for one
  direction \<open>d\<close>, then the outer loop over the four directions.
\<close>

fun bishop_ray ::
  "GameState \<Rightarrow> char \<Rightarrow> int \<Rightarrow> int \<Rightarrow> int \<times> int \<Rightarrow> int list \<Rightarrow> Move list \<Rightarrow> Move list option" where
  "bishop_ray s enemy_color r c d [] moves = Some moves"
| "bishop_ray s enemy_color r c d (i # rest) moves =
     (let end_row = r + fst d * i; end_col = c + snd d * i in
      if 0 \<le> end_row \<and> end_row < 8 \<and> 0 \<le> end_col \<and> end_col < 8 then do {
        end_piece \<leftarrow> board_get (board s) end_row end_col;
        if end_piece = ''--'' then do {
          moves1 \<leftarrow> append_move s (r, c) (end_row, end_col) moves;
          bishop_ray s enemy_color r c d rest moves1
        } else do {
          ch \<leftarrow> str_at end_piece 0;
          if ch = enemy_color then append_move s (r, c) (end_row, end_col) moves
          else Some moves
        }
      } else Some moves)"

fun bishop_dirs ::
  "GameState \<Rightarrow> char \<Rightarrow> int \<Rightarrow> int \<Rightarrow> (int \<times> int) list \<Rightarrow> Move list \<Rightarrow> Move list option" where
  "bishop_dirs s enemy_color r c [] moves = Some moves"
| "bishop_dirs s enemy_color r c (d # ds) moves = do {
     moves1 \<leftarrow> bishop_ray s enemy_color r c d [1..7] moves;
     bishop_dirs s enemy_color r c ds moves1
   }"

definition get_bishop_moves :: "GameState \<Rightarrow> int \<Rightarrow> int \<Rightarrow> Move list \<Rightarrow> Move list option" where
  "get_bishop_moves s r c moves =
     (let directions = [(-1, -1), (-1, 1), (1, -1), (1, 1)];
          enemy_color = (if whiteToMove s then CHR ''b'' else CHR ''w'')
      in bishop_dirs s enemy_color r c directions moves)"

text \<open>\<^verbatim>\<open>get_queen_moves\<close>, lines 468-470.\<close>

definition get_queen_moves :: "GameState \<Rightarrow> int \<Rightarrow> int \<Rightarrow> Move list \<Rightarrow> Move list option" where
  "get_queen_moves s r c moves = do {
     moves1 \<leftarrow> get_rook_moves s r c moves;
     get_bishop_moves s r c moves1
   }"

text \<open>\<^verbatim>\<open>get_king_moves\<close>, lines 475-484.\<close>

fun king_loop ::
  "GameState \<Rightarrow> char \<Rightarrow> int \<Rightarrow> int \<Rightarrow> (int \<times> int) list \<Rightarrow> Move list \<Rightarrow> Move list option" where
  "king_loop s ally_color r c [] moves = Some moves"
| "king_loop s ally_color r c (k # ks) moves =
     (let end_row = r + fst k; end_col = c + snd k in
      if 0 \<le> end_row \<and> end_row < 8 \<and> 0 \<le> end_col \<and> end_col < 8 then do {
        end_piece \<leftarrow> board_get (board s) end_row end_col;
        ch \<leftarrow> str_at end_piece 0;
        moves1 \<leftarrow> (if ch \<noteq> ally_color then append_move s (r, c) (end_row, end_col) moves
                   else Some moves);
        king_loop s ally_color r c ks moves1
      } else king_loop s ally_color r c ks moves)"

definition get_king_moves :: "GameState \<Rightarrow> int \<Rightarrow> int \<Rightarrow> Move list \<Rightarrow> Move list option" where
  "get_king_moves s r c moves =
     (let king_moves = [(-1, -1), (-1, 0), (-1, 1), (0, -1), (0, 1), (1, -1), (1, 0), (1, 1)];
          ally_color = (if whiteToMove s then CHR ''w'' else CHR ''b'')
      in king_loop s ally_color r c king_moves moves)"

subsection \<open>The scan of the board\<close>

text \<open>
  \<^verbatim>\<open>self.move_functions\<close>, line 21: a dictionary from the kind letter to the generator;
  a letter that is not a key raises KeyError.
\<close>

definition move_functions ::
  "char \<Rightarrow> (GameState \<Rightarrow> int \<Rightarrow> int \<Rightarrow> Move list \<Rightarrow> Move list option) option" where
  "move_functions =
     [CHR ''p'' \<mapsto> get_pawn_moves, CHR ''R'' \<mapsto> get_rook_moves, CHR ''N'' \<mapsto> get_knight_moves,
      CHR ''B'' \<mapsto> get_bishop_moves, CHR ''Q'' \<mapsto> get_queen_moves, CHR ''K'' \<mapsto> get_king_moves]"

text \<open>\<^verbatim>\<open>get_all_possible_moves\<close>, lines 52-64: the inner loop over the columns of row \<open>r\<close>.\<close>

fun scan_cols :: "GameState \<Rightarrow> int \<Rightarrow> int list \<Rightarrow> Move list \<Rightarrow> Move list option" where
  "scan_cols s r [] moves = Some moves"
| "scan_cols s r (c # cs) moves = do {
     sq \<leftarrow> board_get (board s) r c;
     turn \<leftarrow> str_at sq 0;
     moves1 \<leftarrow>
       (if (turn = CHR ''w'' \<and> whiteToMove s) \<or> (turn = CHR ''b'' \<and> \<not> whiteToMove s) then do {
          piece \<leftarrow> str_at sq 1;
          gen \<leftarrow> move_functions piece;
          gen s r c moves
        } else Some moves);
     scan_cols s r cs moves1
   }"

text \<open>The outer loop over \<^verbatim>\<open>range(len(self.board))\<close>, with \<^verbatim>\<open>range(len(self.board[r]))\<close> inside.\<close>

fun scan_rows :: "GameState \<Rightarrow> int list \<Rightarrow> Move list \<Rightarrow> Move list option" where
  "scan_rows s [] moves = Some moves"
| "scan_rows s (r # rs) moves = do {
     row \<leftarrow> py_get (board s) r;
     moves1 \<leftarrow> scan_cols s r [0..int (length row) - 1] moves;
     scan_rows s rs moves1
   }"

definition get_all_possible_moves :: "GameState \<Rightarrow> Move list option" where
  "get_all_possible_moves s = scan_rows s [0..int (length (board s)) - 1] []"

text \<open>\<^verbatim>\<open>get_valid_moves\<close>, lines 46-47.\<close>

definition get_valid_moves :: "GameState \<Rightarrow> Move list option" where
  "get_valid_moves s = get_all_possible_moves s"

text \<open>
  A game played through the generator: each entry is a start and an end square; the Move
  built from them over the current board has to be one of \<^verbatim>\<open>get_valid_moves()\<close> and is
  then applied with \<^verbatim>\<open>make_move\<close>. The states this reaches from \<open>GameState_init\<close> are the
  states reachable by valid moves.
\<close>

fun play :: "GameState \<Rightarrow> ((int \<times> int) \<times> (int \<times> int)) list \<Rightarrow> GameState option" where
  "play s [] = Some s"
| "play s (sq # rest) = do {
     m \<leftarrow> Move_init (fst sq) (snd sq) (board s);
     valid_moves \<leftarrow> get_valid_moves s;
     if m \<in> set valid_moves then do { s' \<leftarrow> make_move s m; play s' rest } else None
   }"

section \<open>Definitions used to state the properties\<close>

text \<open>The consistency of the side to move with the length of the move log.\<close>

definition turn_parity :: "GameState \<Rightarrow> bool" where
  "turn_parity s = (whiteToMove s = even (length (moveLog s)))"

text \<open>The Move that the constructor builds for (6, 4) to (4, 4) over the initial board.\<close>

definition e2e4 :: Move where
  "e2e4 = \<lparr> start_row = 6, start_col = 4, end_row = 4, end_col = 4,
            piece_moved = ''wp'', piece_captured = ''--'', move_ID = 6444 \<rparr>"

text \<open>A board with no piece on it.\<close>

definition empty_board :: board_t where
  "empty_board = replicate 8 (replicate 8 ''--'')"

text \<open>
  The Move that the constructor builds from the given coordinates when it reads the two
  given pieces off the board.
\<close>

definition move_rec :: "int \<Rightarrow> int \<Rightarrow> int \<Rightarrow> int \<Rightarrow> string \<Rightarrow> string \<Rightarrow> Move" where
  "move_rec sr sc er ec pm pc =
     \<lparr> start_row = sr, start_col = sc, end_row = er, end_col = ec,
       piece_moved = pm, piece_captured = pc,
       move_ID = sr * 1000 + sc * 100 + er * 10 + ec \<rparr>"

definition row_empty :: "string list" where
  "row_empty = [''--'', ''--'', ''--'', ''--'', ''--'', ''--'', ''--'', ''--'']"

text \<open>
  A white rook on (4, 4), a black pawn on (4, 6), a white pawn on (2, 4), nothing else.
\<close>

definition rook_board :: board_t where
  "rook_board =
     [row_empty, row_empty,
      [''--'', ''--'', ''--'', ''--'', ''wp'', ''--'', ''--'', ''--''],
      row_empty,
      [''--'', ''--'', ''--'', ''--'', ''wR'', ''--'', ''bp'', ''--''],
      row_empty, row_empty, row_empty]"

text \<open>A black knight on (4, 4), a white pawn on (3, 2), nothing else.\<close>

definition knight_board :: board_t where
  "knight_board =
     [row_empty, row_empty, row_empty,
      [''--'', ''--'', ''wp'', ''--'', ''--'', ''--'', ''--'', ''--''],
      [''--'', ''--'', ''--'', ''--'', ''bN'', ''--'', ''--'', ''--''],
      row_empty, row_empty, row_empty]"

text \<open>The twenty moves of White in the initial position, in the order of the scan.\<close>

definition initial_moves :: "Move list" where
  "initial_moves =
     [move_rec 6 0 5 0 ''wp'' ''--'', move_rec 6 0 4 0 ''wp'' ''--'',
      move_rec 6 1 5 1 ''wp'' ''--'', move_rec 6 1 4 1 ''wp'' ''--'',
      move_rec 6 2 5 2 ''wp'' ''--'', move_rec 6 2 4 2 ''wp'' ''--'',
      move_rec 6 3 5 3 ''wp'' ''--'', move_rec 6 3 4 3 ''wp'' ''--'',
      move_rec 6 4 5 4 ''wp'' ''--'', move_rec 6 4 4 4 ''wp'' ''--'',
      move_rec 6 5 5 5 ''wp'' ''--'', move_rec 6 5 4 5 ''wp'' ''--'',
      move_rec 6 6 5 6 ''wp'' ''--'', move_rec 6 6 4 6 ''wp'' ''--'',
      move_rec 6 7 5 7 ''wp'' ''--'', move_rec 6 7 4 7 ''wp'' ''--'',
      move_rec 7 1 5 0 ''wN'' ''--'', move_rec 7 1 5 2 ''wN'' ''--'',
      move_rec 7 6 5 5 ''wN'' ''--'', move_rec 7 6 5 7 ''wN'' ''--'']"

text \<open>
  Twelve plies from the initial position that bring a white pawn to row 0 (a4, b5, axb5,
  h6, b6, h5, bxa7, h4, axb8, h3, Nc3, c6), and the state they lead to.
\<close>

definition pawn_walk :: "((int \<times> int) \<times> (int \<times> int)) list" where
  "pawn_walk =
     [((6, 0), (4, 0)), ((1, 1), (3, 1)), ((4, 0), (3, 1)), ((1, 7), (2, 7)),
      ((3, 1), (2, 1)), ((2, 7), (3, 7)), ((2, 1), (1, 0)), ((3, 7), (4, 7)),
      ((1, 0), (0, 1)), ((4, 7), (5, 7)), ((7, 1), (5, 2)), ((1, 2), (2, 2))]"

definition row0_state :: GameState where
  "row0_state =
     \<lparr> board =
         [[''bR'', ''wp'', ''bB'', ''bQ'', ''bK'', ''bB'', ''bN'', ''bR''],
          [''--'', ''--'', ''--'', ''bp'', ''bp'', ''bp'', ''bp'', ''--''],
          [''--'', ''--'', ''bp'', ''--'', ''--'', ''--'', ''--'', ''--''],
          row_empty,
          row_empty,
          [''--'', ''--'', ''wN'', ''--'', ''--'', ''--'', ''--'', ''bp''],
          [''--'', ''wp'', ''wp'', ''wp'', ''wp'', ''wp'', ''wp'', ''wp''],
          [''wR'', ''--'', ''wB'', ''wQ'', ''wK'', ''wB'', ''wN'', ''wR'']],
       whiteToMove = True,
       moveLog =
         [move_rec 6 0 4 0 ''wp'' ''--'', move_rec 1 1 3 1 ''bp'' ''--'',
          move_rec 4 0 3 1 ''wp'' ''bp'', move_rec 1 7 2 7 ''bp'' ''--'',
          move_rec 3 1 2 1 ''wp'' ''--'', move_rec 2 7 3 7 ''bp'' ''--'',
          move_rec 2 1 1 0 ''wp'' ''bp'', move_rec 3 7 4 7 ''bp'' ''--'',
          move_rec 1 0 0 1 ''wp'' ''bN'', move_rec 4 7 5 7 ''bp'' ''--'',
          move_rec 7 1 5 2 ''wN'' ''--'', move_rec 1 2 2 2 ''bp'' ''--''] \<rparr>"

text \<open>
  \<open>built_over b m\<close>: the Move \<open>m\<close> is what the constructor builds over the board \<open>b\<close> from
  \<open>m\<close>'s own coordinates, so its two pieces are the ones \<open>b\<close> holds there.
\<close>

definition built_over :: "board_t \<Rightarrow> Move \<Rightarrow> bool" where
  "built_over b m =
     (Move_init (start_row m, start_col m) (end_row m, end_col m) b = Some m)"

text \<open>
  A step of a generator takes the list of moves collected so far and returns it with
  further moves appended, or raises. \<open>appender b f\<close>: what \<open>f\<close> appends does not depend on
  the list it is given, and every move it appends is built over \<open>b\<close>.
\<close>

definition appender :: "board_t \<Rightarrow> (Move list \<Rightarrow> Move list option) \<Rightarrow> bool" where
  "appender b f =
     ((\<forall>moves. f moves = map_option (\<lambda>new. moves @ new) (f []))
      \<and> (case f [] of None \<Rightarrow> True | Some new \<Rightarrow> list_all (built_over b) new))"

text \<open>
  The scan as the specification words it: the moves of one square are those of the
  generator of the kind of the piece on it when the piece has the colour of the side to
  move (an unknown kind is an error), and none otherwise; the result is the concatenation
  over the 64 squares in row-major order.
\<close>

definition piece_moves :: "GameState \<Rightarrow> int \<times> int \<Rightarrow> Move list option" where
  "piece_moves s sq = do {
     content \<leftarrow> board_get (board s) (fst sq) (snd sq);
     colour \<leftarrow> str_at content 0;
     if (colour = CHR ''w'' \<and> whiteToMove s) \<or> (colour = CHR ''b'' \<and> \<not> whiteToMove s) then do {
       kind \<leftarrow> str_at content 1;
       if kind = CHR ''p'' then get_pawn_moves s (fst sq) (snd sq) []
       else if kind = CHR ''R'' then get_rook_moves s (fst sq) (snd sq) []
       else if kind = CHR ''N'' then get_knight_moves s (fst sq) (snd sq) []
       else if kind = CHR ''B'' then get_bishop_moves s (fst sq) (snd sq) []
       else if kind = CHR ''Q'' then get_queen_moves s (fst sq) (snd sq) []
       else if kind = CHR ''K'' then get_king_moves s (fst sq) (snd sq) []
       else None
     } else Some []
   }"

definition scan_spec :: "GameState \<Rightarrow> Move list option" where
  "scan_spec s = map_option concat (those (map (piece_moves s) (List.product [0..7] [0..7])))"

text \<open>The body of the inner loop of \<^verbatim>\<open>get_all_possible_moves\<close> for one square.\<close>

definition square_step :: "GameState \<Rightarrow> int \<Rightarrow> int \<Rightarrow> Move list \<Rightarrow> Move list option" where
  "square_step s r c moves = do {
     sq \<leftarrow> board_get (board s) r c;
     turn \<leftarrow> str_at sq 0;
     (if (turn = CHR ''w'' \<and> whiteToMove s) \<or> (turn = CHR ''b'' \<and> \<not> whiteToMove s) then do {
        piece \<leftarrow> str_at sq 1;
        gen \<leftarrow> move_functions piece;
        gen s r c moves
      } else Some moves)
   }"

text \<open>
  A chain of moves applied one after the other, as many \<^verbatim>\<open>undo_move()\<close> calls, and the
  chains in which every move is one of \<^verbatim>\<open>get_valid_moves()\<close> of the state it is applied to.
\<close>

fun make_moves :: "GameState \<Rightarrow> Move list \<Rightarrow> GameState option" where
  "make_moves s [] = Some s"
| "make_moves s (m # ms) = do { s' \<leftarrow> make_move s m; make_moves s' ms }"

fun undo_moves :: "nat \<Rightarrow> GameState \<Rightarrow> GameState option" where
  "undo_moves 0 s = Some s"
| "undo_moves (Suc n) s = do { s' \<leftarrow> undo_move s; undo_moves n s' }"

fun valid_chain :: "GameState \<Rightarrow> Move list \<Rightarrow> bool" where
  "valid_chain s [] = True"
| "valid_chain s (m # ms) =
     (case get_valid_moves s of
        None \<Rightarrow> False
      | Some valid_moves \<Rightarrow>
          m \<in> set valid_moves \<and>
          (case make_move s m of None \<Rightarrow> False | Some s' \<Rightarrow> valid_chain s' ms))"

text \<open>Both queen's knights go out and back thirteen times: 52 plies.\<close>

definition knight_shuffle :: "Move list" where
  "knight_shuffle =
     concat (replicate 13
       [move_rec 7 1 5 2 ''wN'' ''--'', move_rec 0 1 2 2 ''bN'' ''--'',
        move_rec 5 2 7 1 ''wN'' ''--'', move_rec 2 2 0 1 ''bN'' ''--''])"

text \<open>
  Four plies (f3, e5, Kf2, Qg5) after which the white king on (6, 5) can step to (5, 6),
  in the file of the black queen on (3, 6).
\<close>

definition king_walk :: "((int \<times> int) \<times> (int \<times> int)) list" where
  "king_walk = [((6, 5), (5, 5)), ((1, 4), (3, 4)), ((7, 4), (6, 5)), ((0, 3), (3, 6))]"

definition king_state :: GameState where
  "king_state =
     \<lparr> board =
         [[''bR'', ''bN'', ''bB'', ''--'', ''bK'', ''bB'', ''bN'', ''bR''],
          [''bp'', ''bp'', ''bp'', ''bp'', ''--'', ''bp'', ''bp'', ''bp''],
          row_empty,
          [''--'', ''--'', ''--'', ''--'', ''bp'', ''--'', ''bQ'', ''--''],
          row_empty,
          [''--'', ''--'', ''--'', ''--'', ''--'', ''wp'', ''--'', ''--''],
          [''wp'', ''wp'', ''wp'', ''wp'', ''wp'', ''wK'', ''wp'', ''wp''],
          [''wR'', ''wN'', ''wB'', ''wQ'', ''--'', ''wB'', ''wN'', ''wR'']],
       whiteToMove = True,
       moveLog =
         [move_rec 6 5 5 5 ''wp'' ''--'', move_rec 1 4 3 4 ''bp'' ''--'',
          move_rec 7 4 6 5 ''wK'' ''--'', move_rec 0 3 3 6 ''bQ'' ''--''] \<rparr>"

text \<open>
  The pawn rules as the specification words them. \<open>square b r c\<close> is the content of the
  square (r, c) of the grid, for a square \<open>on_board\<close>; \<open>move_over b start end\<close> is the Move
  between two squares of the board with the pieces \<open>b\<close> holds there. A square off the board
  is neither empty nor held by an enemy piece.
\<close>

definition square :: "board_t \<Rightarrow> int \<Rightarrow> int \<Rightarrow> string" where
  "square b r c = b ! nat r ! nat c"

definition on_board :: "int \<Rightarrow> int \<Rightarrow> bool" where
  "on_board r c = (0 \<le> r \<and> r \<le> 7 \<and> 0 \<le> c \<and> c \<le> 7)"

definition move_over :: "board_t \<Rightarrow> int \<times> int \<Rightarrow> int \<times> int \<Rightarrow> Move" where
  "move_over b start_sq end_sq =
     move_rec (fst start_sq) (snd start_sq) (fst end_sq) (snd end_sq)
       (square b (fst start_sq) (snd start_sq)) (square b (fst end_sq) (snd end_sq))"

definition forward :: "GameState \<Rightarrow> int" where
  "forward s = (if whiteToMove s then - 1 else 1)"

definition start_rank :: "GameState \<Rightarrow> int" where
  "start_rank s = (if whiteToMove s then 6 else 1)"

definition enemy_letter :: "GameState \<Rightarrow> char" where
  "enemy_letter s = (if whiteToMove s then CHR ''b'' else CHR ''w'')"

definition empty_at :: "board_t \<Rightarrow> int \<Rightarrow> int \<Rightarrow> bool" where
  "empty_at b r c = (on_board r c \<and> square b r c = ''--'')"

definition enemy_at :: "GameState \<Rightarrow> int \<Rightarrow> int \<Rightarrow> bool" where
  "enemy_at s r c = (on_board r c \<and> hd (square (board s) r c) = enemy_letter s)"

definition pawn_moves_spec :: "GameState \<Rightarrow> int \<Rightarrow> int \<Rightarrow> Move list" where
  "pawn_moves_spec s r c =
     (let b = board s; f = r + forward s; f2 = r + 2 * forward s in
      (if empty_at b f c then [move_over b (r, c) (f, c)] else []) @
      (if r = start_rank s \<and> empty_at b f c \<and> empty_at b f2 c
       then [move_over b (r, c) (f2, c)] else []) @
      (if enemy_at s f (c - 1) then [move_over b (r, c) (f, c - 1)] else []) @
      (if enemy_at s f (c + 1) then [move_over b (r, c) (f, c + 1)] else []))"

text \<open>
  Eleven plies from the initial position (a3, h5, a4, h4, a5, h3, a6, hxg2, axb7, gxh1,
  bxa8) that bring a black pawn to row 7 with Black to move, and the state they lead to.
\<close>

definition black_pawn_walk :: "((int \<times> int) \<times> (int \<times> int)) list" where
  "black_pawn_walk =
     [((6, 0), (5, 0)), ((1, 7), (3, 7)), ((5, 0), (4, 0)), ((3, 7), (4, 7)),
      ((4, 0), (3, 0)), ((4, 7), (5, 7)), ((3, 0), (2, 0)), ((5, 7), (6, 6)),
      ((2, 0), (1, 1)), ((6, 6), (7, 7)), ((1, 1), (0, 0))]"

definition last_rank_state :: GameState where
  "last_rank_state =
     \<lparr> board =
         [[''wp'', ''bN'', ''bB'', ''bQ'', ''bK'', ''bB'', ''bN'', ''bR''],
          [''bp'', ''--'', ''bp'', ''bp'', ''bp'', ''bp'', ''bp'', ''--''],
          row_empty, row_empty, row_empty, row_empty,
          [''--'', ''wp'', ''wp'', ''wp'', ''wp'', ''wp'', ''--'', ''wp''],
          [''wR'', ''wN'', ''wB'', ''wQ'', ''wK'', ''wB'', ''wN'', ''bp'']],
       whiteToMove = False,
       moveLog =
         [move_rec 6 0 5 0 ''wp'' ''--'', move_rec 1 7 3 7 ''bp'' ''--'',
          move_rec 5 0 4 0 ''wp'' ''--'', move_rec 3 7 4 7 ''bp'' ''--'',
          move_rec 4 0 3 0 ''wp'' ''--'', move_rec 4 7 5 7 ''bp'' ''--'',
          move_rec 3 0 2 0 ''wp'' ''--'', move_rec 5 7 6 6 ''bp'' ''wp'',
          move_rec 2 0 1 1 ''wp'' ''bp'', move_rec 6 6 7 7 ''bp'' ''wR'',
          move_rec 1 1 0 0 ''wp'' ''bR''] \<rparr>"

section \<open>Properties\<close>

subsection \<open>Indexing\<close>

lemma norm_index_lt: "norm_index n i = Some j \<Longrightarrow> j < n"
  by (auto simp: norm_index_def split: if_splits)


subsection \<open>The move log and the side to move\<close>

lemma make_move_log_turn:
  assumes "make_move s m = Some s'"
  shows "moveLog s' = moveLog s @ [m] \<and> whiteToMove s' = (\<not> whiteToMove s)"
  using assms by (auto simp: make_move_def split: bind_splits)

lemma undo_move_log_turn:
  assumes "undo_move s = Some s'" and "moveLog s \<noteq> []"
  shows "moveLog s' = butlast (moveLog s) \<and> whiteToMove s' = (\<not> whiteToMove s)"
  using assms by (auto simp: undo_move_def Let_def split: bind_splits)

lemma undo_move_empty_log: "moveLog s = [] \<Longrightarrow> undo_move s = Some s"
  by (simp add: undo_move_def)

lemma turn_parity_make_move:
  "turn_parity s \<Longrightarrow> make_move s m = Some s' \<Longrightarrow> turn_parity s'"
  using make_move_log_turn [of s m s'] by (simp add: turn_parity_def)

lemma turn_parity_undo_move:
  assumes "turn_parity s" and "undo_move s = Some s'"
  shows "turn_parity s'"
proof (cases "moveLog s = []")
  case True
  with assms show ?thesis by (simp add: undo_move_empty_log)
next
  case False
  then have "even (length (butlast (moveLog s))) = (\<not> even (length (moveLog s)))"
    by (cases "moveLog s" rule: rev_cases) simp_all
  with undo_move_log_turn [OF assms(2) False] assms(1) show ?thesis
    unfolding turn_parity_def by simp
qed

lemma turn_parity_run:
  "turn_parity s \<Longrightarrow> run s calls = Some s' \<Longrightarrow> turn_parity s'"
proof (induction calls arbitrary: s)
  case Nil
  then show ?case by simp
next
  case (Cons a calls)
  show ?case
  proof (cases a)
    case (Make_move m)
    with Cons.prems obtain t where "make_move s m = Some t" "run t calls = Some s'"
      by (auto split: bind_splits)
    with Cons show ?thesis by (blast intro: turn_parity_make_move)
  next
    case Undo_move
    with Cons.prems obtain t where "undo_move s = Some t" "run t calls = Some s'"
      by (auto split: bind_splits)
    with Cons show ?thesis by (blast intro: turn_parity_undo_move)
  qed
qed

text \<open>
  Claim C8. With an empty move log \<^verbatim>\<open>undo_move()\<close> does nothing: it raises no exception
  and returns the state as it was, board, side to move and log unchanged.
\<close>

theorem undo_move_empty_noop:
  assumes "moveLog s = []"
  shows "undo_move s = Some s"
  using assms by (simp add: undo_move_def)

theorem undo_move_empty_noop_witness:
  "moveLog GameState_init = [] \<and> undo_move GameState_init = Some GameState_init"
proof -
  have h: "moveLog GameState_init = []" by (simp add: GameState_init_def)
  from undo_move_empty_noop [OF h] h show ?thesis by simp
qed

text \<open>
  Claim C9. In every state reached from the initial state by any sequence of
  \<^verbatim>\<open>make_move\<close> and \<^verbatim>\<open>undo_move\<close> calls, White is to move iff the move log has even
  length. (\<open>make_move_log_turn\<close> and \<open>undo_move_log_turn\<close> are the single steps: one entry
  appended or removed, the side flipped.)
\<close>

theorem side_to_move_parity:
  assumes "run GameState_init calls = Some s"
  shows "whiteToMove s \<longleftrightarrow> even (length (moveLog s))"
proof -
  have "turn_parity GameState_init" by (simp add: turn_parity_def GameState_init_def)
  from turn_parity_run [OF this assms] show ?thesis by (simp add: turn_parity_def)
qed

theorem side_to_move_parity_witness:
  "\<exists>s. run GameState_init [Make_move e2e4, Undo_move, Undo_move, Make_move e2e4] = Some s
     \<and> \<not> whiteToMove s \<and> length (moveLog s) = 1"
proof -
  have "run GameState_init [Make_move e2e4, Undo_move, Undo_move, Make_move e2e4] \<noteq> None"
    by code_simp
  then obtain s where s: "run GameState_init [Make_move e2e4, Undo_move, Undo_move, Make_move e2e4] = Some s"
    by blast
  have "map_option (\<lambda>s. length (moveLog s)) (run GameState_init [Make_move e2e4, Undo_move, Undo_move, Make_move e2e4]) = Some 1"
    by code_simp
  with s have "length (moveLog s) = 1" by simp
  with side_to_move_parity [OF s] s show ?thesis by simp
qed

subsection \<open>Equality of moves\<close>

lemma move_ID_inj:
  fixes a b c d a' b' c' d' :: int
  assumes "a * 1000 + b * 100 + c * 10 + d = a' * 1000 + b' * 100 + c' * 10 + d'"
      and "0 \<le> a \<and> a \<le> 7 \<and> 0 \<le> b \<and> b \<le> 7 \<and> 0 \<le> c \<and> c \<le> 7 \<and> 0 \<le> d \<and> d \<le> 7"
      and "0 \<le> a' \<and> a' \<le> 7 \<and> 0 \<le> b' \<and> b' \<le> 7 \<and> 0 \<le> c' \<and> c' \<le> 7 \<and> 0 \<le> d' \<and> d' \<le> 7"
  shows "a = a' \<and> b = b' \<and> c = c' \<and> d = d'"
proof -
  have "a \<le> a'" "a' \<le> a" using assms by linarith+
  then have a: "a = a'" by simp
  have "b \<le> b'" "b' \<le> b" using assms a by linarith+
  then have b: "b = b'" by simp
  have "c \<le> c'" "c' \<le> c" using assms a b by linarith+
  then have c: "c = c'" by simp
  have d: "d = d'" using assms a b c by simp
  from a b c d show ?thesis by simp
qed

text \<open>
  Claim C7. Two Move values with all four coordinates in 0..7 are equal (\<^verbatim>\<open>__eq__\<close>)
  iff their coordinate quadruples are equal, whatever boards they were built over; the
  pieces read from the boards play no part.
\<close>

theorem move_eq_iff_coordinates:
  assumes "Move_init (sr, sc) (er, ec) b = Some m"
      and "Move_init (sr', sc') (er', ec') b' = Some m'"
      and "0 \<le> sr \<and> sr \<le> 7 \<and> 0 \<le> sc \<and> sc \<le> 7 \<and> 0 \<le> er \<and> er \<le> 7 \<and> 0 \<le> ec \<and> ec \<le> 7"
      and "0 \<le> sr' \<and> sr' \<le> 7 \<and> 0 \<le> sc' \<and> sc' \<le> 7 \<and> 0 \<le> er' \<and> er' \<le> 7 \<and> 0 \<le> ec' \<and> ec' \<le> 7"
  shows "Move_eq m m' \<longleftrightarrow> (sr, sc, er, ec) = (sr', sc', er', ec')"
proof -
  from assms(1) have id: "move_ID m = sr * 1000 + sc * 100 + er * 10 + ec"
    by (auto simp: Move_init_def split: bind_splits)
  from assms(2) have id': "move_ID m' = sr' * 1000 + sc' * 100 + er' * 10 + ec'"
    by (auto simp: Move_init_def split: bind_splits)
  show ?thesis
  proof
    assume "Move_eq m m'"
    then have "sr * 1000 + sc * 100 + er * 10 + ec = sr' * 1000 + sc' * 100 + er' * 10 + ec'"
      by (simp add: Move_eq_def id id')
    from move_ID_inj [OF this assms(3) assms(4)] show "(sr, sc, er, ec) = (sr', sc', er', ec')"
      by simp
  next
    assume "(sr, sc, er, ec) = (sr', sc', er', ec')"
    then show "Move_eq m m'" by (simp add: Move_eq_def id id')
  qed
qed

theorem move_eq_iff_coordinates_witness:
  "\<exists>m m'. Move_init (6, 4) (4, 4) init_board = Some m
     \<and> Move_init (6, 4) (4, 4) empty_board = Some m'
     \<and> piece_moved m \<noteq> piece_moved m' \<and> Move_eq m m'"
proof -
  have "Move_init (6, 4) (4, 4) init_board \<noteq> None" by code_simp
  then obtain m where m: "Move_init (6, 4) (4, 4) init_board = Some m" by blast
  have "Move_init (6, 4) (4, 4) empty_board \<noteq> None" by code_simp
  then obtain m' where m': "Move_init (6, 4) (4, 4) empty_board = Some m'" by blast
  have "map_option piece_moved (Move_init (6, 4) (4, 4) init_board) = Some ''wp''"
    by code_simp
  with m have pm: "piece_moved m = ''wp''" by simp
  have "map_option piece_moved (Move_init (6, 4) (4, 4) empty_board) = Some ''--''"
    by code_simp
  with m' have pm': "piece_moved m' = ''--''" by simp
  have "Move_eq m m'"
    using move_eq_iff_coordinates [OF m m'] by simp
  with m m' pm pm' show ?thesis by simp
qed

subsection \<open>The generators on concrete boards\<close>

text \<open>
  Claim C1. The rook generator is to stop a ray at the first enemy piece, so that no
  square beyond it is appended. On \<open>rook_board\<close> (rook on (4, 4), enemy on (4, 6), own
  pawn on (2, 4)) the loop of lines 154-167 appends the capture on (4, 6) and goes on: it
  leaves the loop only on a piece of the mover's colour. The move to (4, 7), behind the
  enemy pawn, is in the result. The column ray does stop before the own pawn on (2, 4).
\<close>

theorem rook_ray_passes_enemy:
  "is_board rook_board \<and>
   get_rook_moves \<lparr> board = rook_board, whiteToMove = True, moveLog = [] \<rparr> 4 4 [] =
     Some [move_rec 4 4 3 4 ''wR'' ''--'',
           move_rec 4 4 4 3 ''wR'' ''--'', move_rec 4 4 4 2 ''wR'' ''--'',
           move_rec 4 4 4 1 ''wR'' ''--'', move_rec 4 4 4 0 ''wR'' ''--'',
           move_rec 4 4 4 5 ''wR'' ''--'', move_rec 4 4 4 6 ''wR'' ''bp'',
           move_rec 4 4 4 7 ''wR'' ''--'',
           move_rec 4 4 5 4 ''wR'' ''--'', move_rec 4 4 6 4 ''wR'' ''--'',
           move_rec 4 4 7 4 ''wR'' ''--'']"
  by code_simp

text \<open>
  Claim C4. The knight generator is to append, for each of the eight offset squares that
  is on the board and empty or held by the enemy, one move ending on that square. For a
  black knight on (4, 4) and a white pawn on (3, 2) the branch of lines 376-383 tests
  (3, 2) and appends a move to (6, 3): the result has the move to (6, 3) twice and no move
  to (3, 2).
\<close>

theorem black_knight_wrong_destination:
  "is_board knight_board \<and>
   get_knight_moves \<lparr> board = knight_board, whiteToMove = False, moveLog = [] \<rparr> 4 4 [] =
     Some [move_rec 4 4 2 3 ''bN'' ''--'', move_rec 4 4 6 3 ''bN'' ''--'',
           move_rec 4 4 6 3 ''bN'' ''--'',
           move_rec 4 4 5 2 ''bN'' ''--'',
           move_rec 4 4 2 5 ''bN'' ''--'', move_rec 4 4 6 5 ''bN'' ''--'',
           move_rec 4 4 3 6 ''bN'' ''--'', move_rec 4 4 5 6 ''bN'' ''--'']"
  by code_simp

text \<open>
  Claim C3. In the initial position \<^verbatim>\<open>get_valid_moves()\<close> returns exactly twenty moves:
  eight single pawn pushes, eight double pawn pushes and four knight moves. After any one
  of them it is Black's turn and \<^verbatim>\<open>get_valid_moves()\<close> returns twenty moves again.
\<close>

theorem initial_position_twenty_moves:
  "get_valid_moves GameState_init = Some initial_moves
   \<and> length initial_moves = 20
   \<and> length (filter (\<lambda>m. piece_moved m = ''wp'' \<and> end_row m = start_row m - 1
                        \<and> end_col m = start_col m) initial_moves) = 8
   \<and> length (filter (\<lambda>m. piece_moved m = ''wp'' \<and> end_row m = start_row m - 2
                        \<and> end_col m = start_col m) initial_moves) = 8
   \<and> length (filter (\<lambda>m. piece_moved m = ''wN'') initial_moves) = 4
   \<and> map (\<lambda>m. make_move GameState_init m \<bind>
               (\<lambda>s'. map_option (\<lambda>ms. (whiteToMove s', length ms)) (get_valid_moves s')))
         initial_moves
       = replicate 20 (Some (False, 20))"
  by code_simp

text \<open>
  Claim C10. Neither the board probes nor the Move constructor check that a coordinate is
  in 0..7. \<open>row0_state\<close> is reached from the initial state by twelve valid moves and has a
  white pawn on (0, 1). There the pawn generator probes row \<open>-1\<close>, which numpy reads as
  row 7, raises nothing and returns a Move with end row \<open>-1\<close>; the move is one of
  \<^verbatim>\<open>get_valid_moves()\<close>, and \<^verbatim>\<open>make_move\<close> puts the pawn on (7, 1), the opposite edge.
\<close>

theorem pawn_on_row0_wraps:
  "play GameState_init pawn_walk = Some row0_state
   \<and> whiteToMove row0_state
   \<and> board_get (board row0_state) 0 1 = Some ''wp''
   \<and> board_get (board row0_state) (- 1) 1 = board_get (board row0_state) 7 1
   \<and> get_pawn_moves row0_state 0 1 [] = Some [move_rec 0 1 (- 1) 1 ''wp'' ''--'']
   \<and> end_row (move_rec 0 1 (- 1) 1 ''wp'' ''--'') = - 1
   \<and> map_option (\<lambda>ms. move_rec 0 1 (- 1) 1 ''wp'' ''--'' \<in> set ms)
        (get_valid_moves row0_state) = Some True
   \<and> make_move row0_state (move_rec 0 1 (- 1) 1 ''wp'' ''--'')
        \<bind> (\<lambda>s'. board_get (board s') 7 1) = Some ''wp''"
  by code_simp

subsection \<open>Generators only append moves built over the board\<close>

lemma Move_init_built_over: "Move_init st en b = Some m \<Longrightarrow> built_over b m"
  by (cases st; cases en) (auto simp: built_over_def Move_init_def split: bind_splits)

lemma appenderI:
  assumes "\<And>moves. f moves = map_option (\<lambda>new. moves @ new) r"
      and "\<And>new. r = Some new \<Longrightarrow> list_all (built_over b) new"
  shows "appender b f"
proof -
  have "f [] = r" using assms(1) [of "[]"] by (cases r) simp_all
  with assms show ?thesis unfolding appender_def by (cases r) simp_all
qed

lemma appenderD:
  assumes "appender b f"
  shows "f moves = map_option (\<lambda>new. moves @ new) (f [])"
    and "f [] = Some new \<Longrightarrow> list_all (built_over b) new"
proof -
  from assms have all: "\<forall>moves. f moves = map_option (\<lambda>new. moves @ new) (f [])"
    unfolding appender_def by (rule conjunct1)
  from all show "f moves = map_option (\<lambda>new. moves @ new) (f [])" by (rule spec)
  from assms have c: "case f [] of None \<Rightarrow> True | Some new \<Rightarrow> list_all (built_over b) new"
    unfolding appender_def by (rule conjunct2)
  assume "f [] = Some new"
  with c show "list_all (built_over b) new" by (simp only: option.case)
qed

lemma appender_Some: "appender b Some"
  by (rule appenderI [where r = "Some []"]) simp_all

lemma appender_Some': "appender b (\<lambda>moves. Some moves)"
  by (rule appender_Some)

lemma appender_None: "appender b (\<lambda>moves. None)"
  by (rule appenderI [where r = None]) simp_all

lemma appender_append_move: "appender (board s) (append_move s st en)"
proof (cases "Move_init st en (board s)")
  case None
  then show ?thesis
    by (intro appenderI [where r = None]) (simp_all add: append_move_def)
next
  case (Some m)
  then show ?thesis
    by (intro appenderI [where r = "Some [m]"])
       (auto simp: append_move_def Move_init_built_over)
qed

lemma appender_bind:
  assumes "appender b f" and "appender b g"
  shows "appender b (\<lambda>moves. f moves \<bind> g)"
proof (cases "f []")
  case None
  with appenderD(1) [OF assms(1)] have "\<And>moves. f moves = None" by simp
  then show ?thesis by (intro appenderI [where r = None]) simp_all
next
  case f: (Some xs)
  with appenderD(1) [OF assms(1)] have fm: "\<And>moves. f moves = Some (moves @ xs)" by simp
  show ?thesis
  proof (cases "g []")
    case None
    with appenderD(1) [OF assms(2)] have "\<And>moves. g moves = None" by simp
    with fm show ?thesis by (intro appenderI [where r = None]) simp_all
  next
    case g: (Some ys)
    with appenderD(1) [OF assms(2)] have gm: "\<And>moves. g moves = Some (moves @ ys)" by simp
    from appenderD(2) [OF assms(1) f] appenderD(2) [OF assms(2) g]
    have "list_all (built_over b) (xs @ ys)" by simp
    with fm gm show ?thesis by (intro appenderI [where r = "Some (xs @ ys)"]) auto
  qed
qed

lemma appender_if:
  assumes "c \<Longrightarrow> appender b f" and "\<not> c \<Longrightarrow> appender b g"
  shows "appender b (\<lambda>moves. if c then f moves else g moves)"
  using assms by (cases c) simp_all

lemma appender_bind_val:
  assumes "\<And>v. x = Some v \<Longrightarrow> appender b (h v)"
  shows "appender b (\<lambda>moves. x \<bind> (\<lambda>v. h v moves))"
proof (cases x)
  case None
  then show ?thesis by (simp add: appender_None)
next
  case (Some v)
  then have "(\<lambda>moves. x \<bind> (\<lambda>v. h v moves)) = h v" by simp
  with assms [OF Some] show ?thesis by simp
qed

lemmas appender_intros =
  appender_Some' appender_None appender_append_move appender_bind appender_if appender_bind_val

lemma appender_get_pawn_moves: "appender (board s) (get_pawn_moves s r c)"
  unfolding get_pawn_moves_def [abs_def]
  by (intro appender_intros)

lemma appender_rook_loop: "appender (board s) (rook_loop s enemy ally start sq_of idxs)"
proof (induction idxs)
  case Nil
  have "rook_loop s enemy ally start sq_of [] = Some" by (rule ext) simp
  then show ?case by (simp add: appender_Some)
next
  case (Cons i rest)
  have "rook_loop s enemy ally start sq_of (i # rest) = (\<lambda>moves. do {
     sq \<leftarrow> board_get (board s) (fst (sq_of i)) (snd (sq_of i));
     moves1 \<leftarrow> (if sq = ''--'' then append_move s start (sq_of i) moves else Some moves);
     if sq \<noteq> ''--'' then do {
       ch \<leftarrow> str_at sq 0;
       moves2 \<leftarrow> (if ch = enemy then append_move s start (sq_of i) moves1 else Some moves1);
       if ch = ally then Some moves2
       else rook_loop s enemy ally start sq_of rest moves2
     } else rook_loop s enemy ally start sq_of rest moves1
   })" by (rule ext) simp
  then show ?case using Cons.IH
    by (simp only:) (intro appender_intros)
qed

lemma appender_rook_rays: "appender (board s) (rook_rays s enemy ally r c)"
  unfolding rook_rays_def [abs_def]
  by (intro appender_intros appender_rook_loop)

lemma appender_get_rook_moves: "appender (board s) (get_rook_moves s r c)"
  unfolding get_rook_moves_def [abs_def]
  by (intro appender_intros appender_rook_rays)

lemma appender_knight_probe:
  "appender (board s) (knight_probe s enemy start tested capture_to)"
  unfolding knight_probe_def [abs_def]
  by (intro appender_intros)

lemma appender_get_knight_moves: "appender (board s) (get_knight_moves s r c)"
  unfolding get_knight_moves_def [abs_def]
  by (intro appender_intros appender_knight_probe)

lemma appender_bishop_ray: "appender (board s) (bishop_ray s enemy_color r c d idxs)"
proof (induction idxs)
  case Nil
  have "bishop_ray s enemy_color r c d [] = Some" by (rule ext) simp
  then show ?case by (simp add: appender_Some)
next
  case (Cons i rest)
  have "bishop_ray s enemy_color r c d (i # rest) = (\<lambda>moves.
      if 0 \<le> r + fst d * i \<and> r + fst d * i < 8 \<and> 0 \<le> c + snd d * i \<and> c + snd d * i < 8 then do {
        end_piece \<leftarrow> board_get (board s) (r + fst d * i) (c + snd d * i);
        if end_piece = ''--'' then do {
          moves1 \<leftarrow> append_move s (r, c) (r + fst d * i, c + snd d * i) moves;
          bishop_ray s enemy_color r c d rest moves1
        } else do {
          ch \<leftarrow> str_at end_piece 0;
          if ch = enemy_color then append_move s (r, c) (r + fst d * i, c + snd d * i) moves
          else Some moves
        }
      } else Some moves)" by (rule ext) (simp add: Let_def)
  then show ?case using Cons.IH
    by (simp only:) (intro appender_intros)
qed

lemma appender_bishop_dirs: "appender (board s) (bishop_dirs s enemy_color r c ds)"
proof (induction ds)
  case Nil
  have "bishop_dirs s enemy_color r c [] = Some" by (rule ext) simp
  then show ?case by (simp add: appender_Some)
next
  case (Cons d ds)
  have "bishop_dirs s enemy_color r c (d # ds) = (\<lambda>moves.
     bishop_ray s enemy_color r c d [1..7] moves \<bind> bishop_dirs s enemy_color r c ds)"
    by (rule ext) simp
  then show ?case using Cons.IH
    by (simp only:) (intro appender_bind appender_bishop_ray)
qed

lemma appender_get_bishop_moves: "appender (board s) (get_bishop_moves s r c)"
  unfolding get_bishop_moves_def [abs_def] Let_def
  by (rule appender_bishop_dirs)

lemma appender_get_queen_moves: "appender (board s) (get_queen_moves s r c)"
  unfolding get_queen_moves_def [abs_def]
  by (intro appender_bind appender_get_rook_moves appender_get_bishop_moves)

lemma appender_king_loop: "appender (board s) (king_loop s ally_color r c ks)"
proof (induction ks)
  case Nil
  have "king_loop s ally_color r c [] = Some" by (rule ext) simp
  then show ?case by (simp add: appender_Some)
next
  case (Cons k ks)
  have "king_loop s ally_color r c (k # ks) = (\<lambda>moves.
      if 0 \<le> r + fst k \<and> r + fst k < 8 \<and> 0 \<le> c + snd k \<and> c + snd k < 8 then do {
        end_piece \<leftarrow> board_get (board s) (r + fst k) (c + snd k);
        ch \<leftarrow> str_at end_piece 0;
        moves1 \<leftarrow> (if ch \<noteq> ally_color then append_move s (r, c) (r + fst k, c + snd k) moves
                   else Some moves);
        king_loop s ally_color r c ks moves1
      } else king_loop s ally_color r c ks moves)" by (rule ext) (simp add: Let_def)
  then show ?case using Cons.IH
    by (simp only:) (intro appender_intros)
qed

lemma appender_get_king_moves: "appender (board s) (get_king_moves s r c)"
  unfolding get_king_moves_def [abs_def] Let_def
  by (rule appender_king_loop)

lemma appender_move_functions:
  assumes "move_functions k = Some gen"
  shows "appender (board s) (gen s r c)"
  using assms
  by (auto simp: move_functions_def appender_get_pawn_moves appender_get_rook_moves
        appender_get_knight_moves appender_get_bishop_moves appender_get_queen_moves
        appender_get_king_moves split: if_splits)

lemma appender_square_step: "appender (board s) (square_step s r c)"
  unfolding square_step_def [abs_def]
  by (intro appender_intros appender_move_functions)

lemma square_step_Nil: "square_step s r c [] = piece_moves s (r, c)"
  by (auto simp: square_step_def piece_moves_def move_functions_def
        intro!: Option.bind_cong)

lemma scan_cols_Cons: "scan_cols s r (c # cs) moves = square_step s r c moves \<bind> scan_cols s r cs"
  by (simp add: square_step_def)

lemma appender_scan_cols: "appender (board s) (scan_cols s r cs)"
proof (induction cs)
  case Nil
  have "scan_cols s r [] = Some" by (rule ext) simp
  then show ?case by (simp add: appender_Some)
next
  case (Cons c cs)
  have "scan_cols s r (c # cs) = (\<lambda>moves. square_step s r c moves \<bind> scan_cols s r cs)"
    by (rule ext) (rule scan_cols_Cons)
  then show ?case using Cons.IH
    by (simp only:) (intro appender_bind appender_square_step)
qed

lemma appender_scan_rows: "appender (board s) (scan_rows s rs)"
proof (induction rs)
  case Nil
  have "scan_rows s [] = Some" by (rule ext) simp
  then show ?case by (simp add: appender_Some)
next
  case (Cons r rs)
  have "scan_rows s (r # rs) = (\<lambda>moves. py_get (board s) r \<bind> (\<lambda>row.
          (\<lambda>moves. scan_cols s r [0..int (length row) - 1] moves \<bind> scan_rows s rs) moves))"
    by (rule ext) simp
  then show ?case using Cons.IH
    by (simp only:) (intro appender_bind_val appender_bind appender_scan_cols)
qed

lemma valid_moves_built_over:
  assumes "get_valid_moves s = Some ms" and "m \<in> set ms"
  shows "built_over (board s) m"
proof -
  from assms(1) have "scan_rows s [0..int (length (board s)) - 1] [] = Some ms"
    by (simp add: get_valid_moves_def get_all_possible_moves_def)
  from appenderD(2) [OF appender_scan_rows this] assms(2) show ?thesis
    by (simp add: list_all_iff)
qed

subsection \<open>The scan is the concatenation of the squares' moves\<close>

lemma appender_bind_Nil:
  assumes "appender b f" and "appender b g"
  shows "(f [] \<bind> g) = f [] \<bind> (\<lambda>xs. map_option (\<lambda>ys. xs @ ys) (g []))"
proof (cases "f []")
  case None
  then show ?thesis by simp
next
  case (Some xs)
  with appenderD(1) [OF assms(2), of xs] show ?thesis by simp
qed

lemma scan_cols_concat:
  "scan_cols s r cs [] = map_option concat (those (map (\<lambda>c. piece_moves s (r, c)) cs))"
proof (induction cs)
  case Nil
  then show ?case by simp
next
  case (Cons c cs)
  have "scan_cols s r (c # cs) [] = square_step s r c [] \<bind> scan_cols s r cs"
    by (rule scan_cols_Cons)
  also have "\<dots> = square_step s r c [] \<bind> (\<lambda>xs. map_option (\<lambda>ys. xs @ ys) (scan_cols s r cs []))"
    by (rule appender_bind_Nil [OF appender_square_step appender_scan_cols])
  also have "\<dots> = map_option concat (those (map (\<lambda>c. piece_moves s (r, c)) (c # cs)))"
    by (cases "piece_moves s (r, c)")
       (simp_all add: Cons.IH square_step_Nil option.map_comp comp_def)
  finally show ?case .
qed

lemma those_append:
  "those (xs @ ys) = those xs \<bind> (\<lambda>as. map_option (\<lambda>bs. as @ bs) (those ys))"
proof (induction xs)
  case Nil
  show ?case by (cases "those ys") simp_all
next
  case (Cons x xs)
  then show ?case
    by (cases x; cases "those xs"; cases "those ys") simp_all
qed

lemma scan_rows_concat:
  assumes "\<forall>r \<in> set rs. py_get (board s) r \<noteq> None"
      and "list_all (\<lambda>row. length row = 8) (board s)"
  shows "scan_rows s rs [] = map_option concat (those (map (piece_moves s) (List.product rs [0..7])))"
  using assms(1)
proof (induction rs)
  case Nil
  then show ?case by simp
next
  case (Cons r rs)
  from Cons.prems obtain row where row: "py_get (board s) r = Some row" by auto
  then have "row \<in> set (board s)"
    by (auto simp: py_get_def dest!: norm_index_lt)
  with assms(2) have len: "length row = 8" by (simp add: list_all_iff)
  have "scan_rows s (r # rs) [] = scan_cols s r [0..7] [] \<bind> scan_rows s rs"
    by (simp add: row len)
  also have "\<dots> = scan_cols s r [0..7] [] \<bind> (\<lambda>xs. map_option (\<lambda>ys. xs @ ys) (scan_rows s rs []))"
    by (rule appender_bind_Nil [OF appender_scan_cols appender_scan_rows])
  also have "\<dots> = map_option concat (those (map (piece_moves s) (List.product (r # rs) [0..7])))"
    using Cons.IH Cons.prems
    by (cases "those (map (\<lambda>c. piece_moves s (r, c)) [0..7])";
        cases "those (map (piece_moves s) (List.product rs [0..7]))")
       (simp_all add: scan_cols_concat those_append comp_def option.map_comp)
  finally show ?case .
qed

subsection \<open>Making and undoing a move\<close>

lemma board_get_Some_iff:
  "board_get b r c = Some v \<longleftrightarrow>
     (\<exists>i j. norm_index (length b) r = Some i \<and> norm_index (length (b ! i)) c = Some j
            \<and> v = b ! i ! j)"
  by (auto simp: board_get_def py_get_def split: bind_splits)

lemma board_set_Some_iff:
  "board_set b r c v = Some b' \<longleftrightarrow>
     (\<exists>i j. norm_index (length b) r = Some i \<and> norm_index (length (b ! i)) c = Some j
            \<and> b' = b[i := (b ! i)[j := take 2 v]])"
  by (auto simp: board_set_def py_get_def py_set_def split: bind_splits)

lemma board_set_eq:
  assumes "norm_index (length b) r = Some i" and "norm_index (length (b ! i)) c = Some j"
  shows "board_set b r c v = Some (b[i := (b ! i)[j := take 2 v]])"
  using assms by (simp add: board_set_Some_iff)

lemma grid_update_roundtrip:
  assumes "i < length b" and "j < length (b ! i)" and "k < length b" and "l < length (b ! k)"
  shows "\<exists>b1 b2 b3.
           b1 = b[i := (b ! i)[j := e]] \<and>
           b2 = b1[k := (b1 ! k)[l := b ! i ! j]] \<and>
           b3 = b2[i := (b2 ! i)[j := b ! i ! j]] \<and>
           b3[k := (b3 ! k)[l := b ! k ! l]] = b \<and>
           length b1 = length b \<and> length b2 = length b \<and> length b3 = length b \<and>
           length (b1 ! k) = length (b ! k) \<and> length (b2 ! i) = length (b ! i) \<and>
           length (b3 ! k) = length (b ! k)"
proof (cases "i = k")
  case True
  then show ?thesis using assms
    by (cases "j = l") (simp_all add: list_update_swap [of j l])
next
  case False
  then show ?thesis using assms
    by (simp add: list_update_swap [of i k])
qed

lemma board_shape_square:
  assumes "board_shape b" and "i < length b" and "j < length (b ! i)"
  shows "length (b ! i ! j) \<le> 2"
  using assms by (auto simp: board_shape_def list_all_length)

lemma built_over_fields:
  assumes "built_over b m"
  shows "board_get b (start_row m) (start_col m) = Some (piece_moved m)"
    and "board_get b (end_row m) (end_col m) = Some (piece_captured m)"
proof -
  from assms obtain x y where
    x: "board_get b (start_row m) (start_col m) = Some x" and
    y: "board_get b (end_row m) (end_col m) = Some y" and
    eq: "\<lparr> start_row = start_row m, start_col = start_col m,
           end_row = end_row m, end_col = end_col m,
           piece_moved = x, piece_captured = y,
           move_ID = start_row m * 1000 + start_col m * 100 + end_row m * 10 + end_col m \<rparr> = m"
    by (auto simp: built_over_def Move_init_def split: bind_splits)
  from arg_cong [OF eq, of piece_moved] have "piece_moved m = x" by simp
  moreover from arg_cong [OF eq, of piece_captured] have "piece_captured m = y" by simp
  ultimately show "board_get b (start_row m) (start_col m) = Some (piece_moved m)"
    and "board_get b (end_row m) (end_col m) = Some (piece_captured m)"
    using x y by simp_all
qed

lemma make_undo_roundtrip:
  assumes shape: "board_shape (board s)" and built: "built_over (board s) m"
  shows "\<exists>s'. make_move s m = Some s' \<and> undo_move s' = Some s"
proof -
  let ?b = "board s"
  from built_over_fields [OF built] obtain pm pc where
    pm: "board_get ?b (start_row m) (start_col m) = Some pm" and
    pc: "board_get ?b (end_row m) (end_col m) = Some pc" and
    m: "piece_moved m = pm" "piece_captured m = pc"
    by blast
  from pm obtain i j where
    i: "norm_index (length ?b) (start_row m) = Some i" and
    j: "norm_index (length (?b ! i)) (start_col m) = Some j" and
    pm_eq: "pm = ?b ! i ! j"
    by (auto simp: board_get_Some_iff)
  from pc obtain k l where
    k: "norm_index (length ?b) (end_row m) = Some k" and
    l: "norm_index (length (?b ! k)) (end_col m) = Some l" and
    pc_eq: "pc = ?b ! k ! l"
    by (auto simp: board_get_Some_iff)
  note lt = norm_index_lt [OF i] norm_index_lt [OF j] norm_index_lt [OF k] norm_index_lt [OF l]
  from grid_update_roundtrip [OF lt, of "''--''"] obtain b1 b2 b3 where
    b1: "b1 = ?b[i := (?b ! i)[j := ''--'']]" and
    b2: "b2 = b1[k := (b1 ! k)[l := ?b ! i ! j]]" and
    b3: "b3 = b2[i := (b2 ! i)[j := ?b ! i ! j]]" and
    restored: "b3[k := (b3 ! k)[l := ?b ! k ! l]] = ?b" and
    len: "length b1 = length ?b" "length b2 = length ?b" "length b3 = length ?b"
         "length (b1 ! k) = length (?b ! k)" "length (b2 ! i) = length (?b ! i)"
         "length (b3 ! k) = length (?b ! k)"
    by blast
  have t_pm: "take 2 pm = pm" and t_pc: "take 2 pc = pc"
    using board_shape_square [OF shape lt(1,2)] board_shape_square [OF shape lt(3,4)]
    by (simp_all add: pm_eq pc_eq)
  have s1: "board_set ?b (start_row m) (start_col m) ''--'' = Some b1"
    using board_set_eq [OF i j, of "''--''"] by (simp add: b1)
  have s2: "board_set b1 (end_row m) (end_col m) (piece_moved m) = Some b2"
    using board_set_eq [of b1 "end_row m" k "end_col m" l "piece_moved m"] k l len
    by (simp add: b2 m t_pm pm_eq [symmetric])
  have s3: "board_set b2 (start_row m) (start_col m) (piece_moved m) = Some b3"
    using board_set_eq [of b2 "start_row m" i "start_col m" j "piece_moved m"] i j len
    by (simp add: b3 m t_pm pm_eq [symmetric])
  have s4: "board_set b3 (end_row m) (end_col m) (piece_captured m) = Some ?b"
    using board_set_eq [of b3 "end_row m" k "end_col m" l "piece_captured m"] k l len restored
    by (simp add: m t_pc pc_eq [symmetric])
  let ?s' = "s \<lparr> board := b2, moveLog := moveLog s @ [m], whiteToMove := \<not> whiteToMove s \<rparr>"
  have mk: "make_move s m = Some ?s'"
    by (simp add: make_move_def s1 s2)
  have "undo_move ?s' = Some s"
    by (simp add: undo_move_def s3 s4)
  with mk show ?thesis by blast
qed

lemma board_set_shape:
  assumes "board_shape b" and "board_set b r c v = Some b'"
  shows "board_shape b'"
proof -
  from assms(2) obtain i j where
    i: "norm_index (length b) r = Some i" and
    b': "b' = b[i := (b ! i)[j := take 2 v]]"
    by (auto simp: board_set_Some_iff)
  from norm_index_lt [OF i] have "b ! i \<in> set b" by simp
  with assms(1) have row: "length (b ! i) = 8" "list_all (\<lambda>sq. length sq \<le> 2) (b ! i)"
    by (simp_all add: board_shape_def list_all_iff)
  have "list_all (\<lambda>sq. length sq \<le> 2) ((b ! i)[j := take 2 v])"
    using row(2) by (auto simp: list_all_iff dest!: set_update_subset_insert [THEN subsetD])
  with row(1) assms(1) show ?thesis
    by (auto simp: b' board_shape_def list_all_iff dest!: set_update_subset_insert [THEN subsetD])
qed

lemma make_move_shape:
  assumes "board_shape (board s)" and "make_move s m = Some s'"
  shows "board_shape (board s')"
proof -
  from assms(2) obtain b1 b2 where
    "board_set (board s) (start_row m) (start_col m) ''--'' = Some b1"
    "board_set b1 (end_row m) (end_col m) (piece_moved m) = Some b2"
    "board s' = b2"
    by (auto simp: make_move_def split: bind_splits)
  with assms(1) show ?thesis by (blast intro: board_set_shape)
qed

lemma undo_move_shape:
  assumes "board_shape (board s)" and "undo_move s = Some s'"
  shows "board_shape (board s')"
proof (cases "moveLog s = []")
  case True
  with assms show ?thesis by (simp add: undo_move_def)
next
  case False
  with assms(2) obtain b1 b2 where
    "board_set (board s) (start_row (last (moveLog s))) (start_col (last (moveLog s)))
       (piece_moved (last (moveLog s))) = Some b1"
    "board_set b1 (end_row (last (moveLog s))) (end_col (last (moveLog s)))
       (piece_captured (last (moveLog s))) = Some b2"
    "board s' = b2"
    by (auto simp: undo_move_def Let_def split: bind_splits)
  with assms(1) show ?thesis by (blast intro: board_set_shape)
qed

lemma run_shape:
  "board_shape (board s) \<Longrightarrow> run s calls = Some s' \<Longrightarrow> board_shape (board s')"
proof (induction calls arbitrary: s)
  case Nil
  then show ?case by simp
next
  case (Cons a calls)
  show ?case
  proof (cases a)
    case (Make_move m)
    with Cons.prems obtain t where "make_move s m = Some t" "run t calls = Some s'"
      by (auto split: bind_splits)
    with Cons show ?thesis by (blast intro: make_move_shape)
  next
    case Undo_move
    with Cons.prems obtain t where "undo_move s = Some t" "run t calls = Some s'"
      by (auto split: bind_splits)
    with Cons show ?thesis by (blast intro: undo_move_shape)
  qed
qed

lemma init_board_shape: "board_shape (board GameState_init)"
  by code_simp

lemma undo_moves_Suc_right: "undo_moves (Suc n) s = undo_moves n s \<bind> undo_move"
proof (induction n arbitrary: s)
  case 0
  show ?case by (cases "undo_move s") simp_all
next
  case (Suc n)
  show ?case
  proof (cases "undo_move s")
    case None
    then show ?thesis by simp
  next
    case (Some t)
    have "undo_moves (Suc (Suc n)) s = undo_moves (Suc n) t" by (simp add: Some)
    also have "\<dots> = undo_moves n t \<bind> undo_move" by (rule Suc.IH)
    also have "\<dots> = undo_moves (Suc n) s \<bind> undo_move" by (simp add: Some)
    finally show ?thesis .
  qed
qed

lemma valid_move_roundtrip:
  assumes "board_shape (board s)" and "get_valid_moves s = Some valid_moves"
      and "m \<in> set valid_moves"
  shows "\<exists>s'. make_move s m = Some s' \<and> undo_move s' = Some s"
  using make_undo_roundtrip [OF assms(1) valid_moves_built_over [OF assms(2,3)]] .

lemma chain_roundtrip:
  assumes "board_shape (board s)" and "valid_chain s ms"
  shows "\<exists>s'. make_moves s ms = Some s' \<and> undo_moves (length ms) s' = Some s"
  using assms
proof (induction ms arbitrary: s)
  case Nil
  then show ?case by simp
next
  case (Cons m ms)
  from Cons.prems(2) obtain vs s1 where
    vs: "get_valid_moves s = Some vs" "m \<in> set vs" and
    s1: "make_move s m = Some s1" and chain: "valid_chain s1 ms"
    by (auto split: option.splits)
  from valid_move_roundtrip [OF Cons.prems(1) vs] s1 have undo: "undo_move s1 = Some s"
    by auto
  from Cons.IH [OF make_move_shape [OF Cons.prems(1) s1] chain] obtain s' where
    s': "make_moves s1 ms = Some s'" "undo_moves (length ms) s' = Some s1"
    by blast
  have "undo_moves (length (m # ms)) s' = undo_moves (length ms) s' \<bind> undo_move"
    using undo_moves_Suc_right [of "length ms" s'] by simp
  with s' undo s1 show ?case by simp
qed

text \<open>
  Claim C2. In every state reached from the initial state, for every move \<open>m\<close> of
  \<^verbatim>\<open>get_valid_moves()\<close>, \<^verbatim>\<open>make_move(m)\<close> followed by \<^verbatim>\<open>undo_move()\<close> succeeds and gives
  back the state as it was: board, side to move and move log. The same holds for a chain of
  valid moves of any length followed by as many undos.
\<close>

theorem make_undo_restores:
  assumes "run GameState_init calls = Some s"
  shows "(\<forall>valid_moves m. get_valid_moves s = Some valid_moves \<and> m \<in> set valid_moves \<longrightarrow>
            (\<exists>s'. make_move s m = Some s' \<and> undo_move s' = Some s))
         \<and> (\<forall>ms. valid_chain s ms \<longrightarrow>
            (\<exists>s'. make_moves s ms = Some s' \<and> undo_moves (length ms) s' = Some s))"
proof -
  from run_shape [OF init_board_shape assms] have "board_shape (board s)" .
  then show ?thesis
    by (blast intro: valid_move_roundtrip chain_roundtrip)
qed

theorem make_undo_restores_witness:
  "run GameState_init [] = Some GameState_init
   \<and> valid_chain GameState_init knight_shuffle
   \<and> length knight_shuffle = 52
   \<and> (\<exists>s'. make_moves GameState_init knight_shuffle = Some s'
           \<and> undo_moves 52 s' = Some GameState_init)"
proof -
  have r: "run GameState_init [] = Some GameState_init" by simp
  have c: "valid_chain GameState_init knight_shuffle" by code_simp
  have l: "length knight_shuffle = 52" by code_simp
  from make_undo_restores [OF r] have
    "\<forall>ms. valid_chain GameState_init ms \<longrightarrow>
       (\<exists>s'. make_moves GameState_init ms = Some s'
             \<and> undo_moves (length ms) s' = Some GameState_init)"
    by (rule conjunct2)
  with c have "\<exists>s'. make_moves GameState_init knight_shuffle = Some s'
       \<and> undo_moves (length knight_shuffle) s' = Some GameState_init"
    by blast
  with r c l show ?thesis by (simp only: simp_thms)
qed

subsection \<open>get_valid_moves\<close>

lemma exposed_king_move_is_valid:
  "play GameState_init king_walk = Some king_state
   \<and> map_option (list_ex (\<lambda>m. piece_captured m = ''wK''))
        (get_valid_moves (king_state \<lparr> whiteToMove := False \<rparr>)) = Some False
   \<and> map_option (\<lambda>ms. move_rec 6 5 5 6 ''wK'' ''--'' \<in> set ms)
        (get_valid_moves king_state) = Some True
   \<and> make_move king_state (move_rec 6 5 5 6 ''wK'' ''--'')
        \<bind> (\<lambda>s'. map_option (\<lambda>ms. move_rec 3 6 5 6 ''bQ'' ''wK'' \<in> set ms)
                     (get_valid_moves s')) = Some True"
  by code_simp

lemma all_possible_moves_scan:
  assumes "board_shape (board s)"
  shows "get_all_possible_moves s = scan_spec s"
proof -
  from assms have len: "length (board s) = 8"
    and rows: "list_all (\<lambda>row. length row = 8) (board s)"
    by (simp_all add: board_shape_def list_all_iff)
  have idx: "[0..int (length (board s)) - 1] = [0..7]" by (simp add: len)
  have "\<forall>r \<in> set [0..7]. py_get (board s) r \<noteq> None"
    by (simp add: py_get_def norm_index_def len)
  from scan_rows_concat [OF this rows] show ?thesis
    by (simp add: get_all_possible_moves_def scan_spec_def idx)
qed

text \<open>
  Claim C6. \<^verbatim>\<open>get_valid_moves()\<close> is \<^verbatim>\<open>get_all_possible_moves()\<close>, and its result is the
  concatenation, over the 64 squares in row-major order, of what the generator of the piece
  on the square returns for the side to move; it raises exactly when one of them does.
  Nothing is filtered: in \<open>king_state\<close>, reached by four valid moves, no black piece attacks
  the white king, the king's step to (5, 6) is one of the valid moves, and after it the
  capture of the king by the queen is one of Black's valid moves.
\<close>

theorem valid_moves_is_board_scan:
  assumes "board_shape (board s)"
  shows "get_valid_moves s = get_all_possible_moves s
         \<and> get_valid_moves s = scan_spec s
         \<and> (play GameState_init king_walk = Some king_state
            \<and> map_option (list_ex (\<lambda>m. piece_captured m = ''wK''))
                 (get_valid_moves (king_state \<lparr> whiteToMove := False \<rparr>)) = Some False
            \<and> map_option (\<lambda>ms. move_rec 6 5 5 6 ''wK'' ''--'' \<in> set ms)
                 (get_valid_moves king_state) = Some True
            \<and> make_move king_state (move_rec 6 5 5 6 ''wK'' ''--'')
                 \<bind> (\<lambda>s'. map_option (\<lambda>ms. move_rec 3 6 5 6 ''bQ'' ''wK'' \<in> set ms)
                              (get_valid_moves s')) = Some True)"
proof -
  have a: "get_valid_moves s = get_all_possible_moves s" by (simp add: get_valid_moves_def)
  with all_possible_moves_scan [OF assms] have b: "get_valid_moves s = scan_spec s" by simp
  from a b exposed_king_move_is_valid show ?thesis by (simp only: simp_thms)
qed

theorem valid_moves_is_board_scan_witness:
  "board_shape (board GameState_init)
   \<and> get_valid_moves GameState_init = scan_spec GameState_init
   \<and> scan_spec GameState_init = Some initial_moves"
proof -
  have sh: "board_shape (board GameState_init)" by (rule init_board_shape)
  have sp: "scan_spec GameState_init = Some initial_moves" by code_simp
  from valid_moves_is_board_scan [OF sh, THEN conjunct2, THEN conjunct1]
  have "get_valid_moves GameState_init = scan_spec GameState_init" .
  with sh sp show ?thesis by (simp only: simp_thms)
qed

subsection \<open>The pawn generator\<close>

lemma is_board_row:
  assumes "is_board b" and "0 \<le> r" and "r \<le> 7"
  shows "length b = 8" and "length (b ! nat r) = 8" and "list_all wf_square (b ! nat r)"
proof -
  from assms show len: "length b = 8" by (simp add: is_board_def)
  with assms(2,3) have "b ! nat r \<in> set b" by (intro nth_mem) simp
  with assms(1) show "length (b ! nat r) = 8" and "list_all wf_square (b ! nat r)"
    by (simp_all add: is_board_def list_all_iff)
qed

lemma board_get_on_board:
  assumes "is_board b" and "on_board r c"
  shows "board_get b r c = Some (square b r c)"
  using assms is_board_row [of b r]
  by (simp add: board_get_def py_get_def norm_index_def square_def on_board_def)

lemma wf_square_on_board:
  assumes "is_board b" and "on_board r c"
  shows "wf_square (square b r c)"
proof -
  from assms have "list_all wf_square (b ! nat r)" "length (b ! nat r) = 8"
    by (simp_all add: is_board_row on_board_def)
  moreover from assms(2) have "nat c < 8" by (auto simp: on_board_def)
  ultimately show ?thesis by (simp add: list_all_length square_def)
qed

lemma str_at_0_on_board:
  assumes "is_board b" and "on_board r c"
  shows "str_at (square b r c) 0 = Some (hd (square b r c))"
  using wf_square_on_board [OF assms]
  by (auto simp: wf_square_def str_at_def hd_conv_nth)

lemma Move_init_on_board:
  assumes "is_board b" and "on_board (fst st) (snd st)" and "on_board (fst en) (snd en)"
  shows "Move_init st en b = Some (move_over b st en)"
  using assms by (simp add: Move_init_def board_get_on_board move_over_def move_rec_def)

lemma append_move_on_board:
  assumes "is_board (board s)" and "on_board r c" and "on_board er ec"
  shows "append_move s (r, c) (er, ec) moves = Some (moves @ [move_over (board s) (r, c) (er, ec)])"
  using assms by (simp add: append_move_def Move_init_on_board)

text \<open>
  Claim C5, amended. For every board and every pawn square (r, c) whose forward row is on
  the board (r \<ge> 1 for White, r \<le> 6 for Black), the pawn generator appends exactly: the
  single push iff the forward square is empty; the double push iff the pawn is on its
  starting rank (row 6 for White, row 1 for Black) and both squares in front are empty, so
  that an occupied single-push square suppresses both forward moves; the capture to the
  forward-left and to the forward-right square iff that square is on the board and holds
  an enemy piece.
\<close>

theorem pawn_moves_on_board:
  assumes "is_board (board s)" and "on_board r c" and "on_board (r + forward s) c"
  shows "get_pawn_moves s r c moves = Some (moves @ pawn_moves_spec s r c)"
proof (cases "whiteToMove s")
  case True
  note b = assms(1)
  from assms(2,3) True have rc: "0 \<le> r - 1" "r \<le> 7" "0 \<le> c" "c \<le> 7"
    by (simp_all add: on_board_def forward_def)
  show ?thesis
    unfolding get_pawn_moves_def pawn_moves_spec_def
    using True rc
    by (simp add: board_get_on_board [OF b] str_at_0_on_board [OF b]
          append_move_on_board [OF b] on_board_def
          forward_def start_rank_def enemy_letter_def empty_at_def enemy_at_def Let_def
        cong: if_cong)
next
  case False
  note b = assms(1)
  from assms(2,3) False have rc: "0 \<le> r" "r + 1 \<le> 7" "0 \<le> c" "c \<le> 7"
    by (simp_all add: on_board_def forward_def)
  show ?thesis
    unfolding get_pawn_moves_def pawn_moves_spec_def
    using False rc
    by (simp add: board_get_on_board [OF b] str_at_0_on_board [OF b]
          append_move_on_board [OF b] on_board_def
          forward_def start_rank_def enemy_letter_def empty_at_def enemy_at_def Let_def
        cong: if_cong)
qed

text \<open>
  The claim as stated, for every pawn, fails on the last rank, which a pawn reaches since
  there is no promotion. For the white pawn on (0, 1) of \<open>row0_state\<close> there is no forward
  square, and the generator returns a push to row \<open>-1\<close>. For the black pawn on (7, 7) of
  \<open>last_rank_state\<close> the probe of row 8 raises IndexError: the generator returns no list,
  and neither does \<^verbatim>\<open>get_valid_moves()\<close>.
\<close>

theorem pawn_on_last_rank_counterexample:
  "play GameState_init pawn_walk = Some row0_state
   \<and> is_board (board row0_state) \<and> whiteToMove row0_state
   \<and> board_get (board row0_state) 0 1 = Some ''wp''
   \<and> pawn_moves_spec row0_state 0 1 = []
   \<and> get_pawn_moves row0_state 0 1 [] = Some [move_rec 0 1 (- 1) 1 ''wp'' ''--'']
   \<and> play GameState_init black_pawn_walk = Some last_rank_state
   \<and> is_board (board last_rank_state) \<and> \<not> whiteToMove last_rank_state
   \<and> board_get (board last_rank_state) 7 7 = Some ''bp''
   \<and> get_pawn_moves last_rank_state 7 7 [] = None
   \<and> get_valid_moves last_rank_state = None"
  by code_simp

theorem pawn_moves_on_board_witness:
  "is_board (board GameState_init) \<and> on_board 6 4
   \<and> on_board (6 + forward GameState_init) 4
   \<and> get_pawn_moves GameState_init 6 4 [] =
       Some [move_rec 6 4 5 4 ''wp'' ''--'', move_rec 6 4 4 4 ''wp'' ''--'']
   \<and> is_board (board row0_state) \<and> on_board 6 2
   \<and> on_board (6 + forward row0_state) 2
   \<and> board_get (board row0_state) 5 2 = Some ''wN''
   \<and> board_get (board row0_state) 4 2 = Some ''--''
   \<and> get_pawn_moves row0_state 6 2 [] = Some []"
proof -
  have a: "is_board (board GameState_init)" "on_board 6 4"
    "on_board (6 + forward GameState_init) 4" by code_simp+
  have b: "is_board (board row0_state)" "on_board 6 2"
    "on_board (6 + forward row0_state) 2" by code_simp+
  have sa: "pawn_moves_spec GameState_init 6 4 =
      [move_rec 6 4 5 4 ''wp'' ''--'', move_rec 6 4 4 4 ''wp'' ''--'']" by code_simp
  have sb: "pawn_moves_spec row0_state 6 2 = []" by code_simp
  have g: "board_get (board row0_state) 5 2 = Some ''wN''"
    "board_get (board row0_state) 4 2 = Some ''--''" by code_simp+
  from pawn_moves_on_board [OF a, of "[]"] sa
  have ra: "get_pawn_moves GameState_init 6 4 [] =
      Some [move_rec 6 4 5 4 ''wp'' ''--'', move_rec 6 4 4 4 ''wp'' ''--'']" by simp
  from pawn_moves_on_board [OF b, of "[]"] sb
  have rb: "get_pawn_moves row0_state 6 2 [] = Some []" by simp
  from a b g ra rb show ?thesis by (simp only: simp_thms)
qed

end
